theory Spec2Isabelle
  imports Complex_Main "HOL-Library.Multiset"
begin

section \<open>Numbers\<close>

text \<open>
  The program computes with JavaScript numbers. They are modelled as mathematical reals
  (and as \<open>nat\<close> or \<open>int\<close> where the source only ever holds such values: pixel bytes,
  natural image sizes, array indices, the mesh seed). Rounding of IEEE doubles is not
  modelled. Where the source would produce \<open>NaN\<close> or an infinity (a division by zero, a
  string that is not a number), the model returns \<open>None\<close> instead of a real.
\<close>

text \<open>\<open>Math.round\<close>: the nearest integer, a tie going up.\<close>

definition js_round :: "real \<Rightarrow> int" where
  "js_round x = \<lfloor>x + 1 / 2\<rfloor>"

section \<open>Layout engine (Canvas component)\<close>

record size2 =
  width :: real
  height :: real

record img_dimensions =
  nat_width :: nat
  nat_height :: nat

text \<open>The four settings the layout reads; \<open>aspectRatio\<close> is a string, \<open>''auto''\<close> or \<open>''W/H''\<close>.\<close>

record layout_settings =
  padding :: real
  inset :: real
  scale :: real
  aspectRatio :: string

record computed_layout =
  exportW :: real
  exportH :: real
  cardW :: real
  cardH :: real

text \<open>
  \<open>aspectRatio.split('/')\<close>, of which the source reads entries 0 and 1: the text before
  the first slash, and the text between the first and the second slash (\<open>None\<close>, for
  \<open>undefined\<close>, when the string has no slash).
\<close>

definition split_part0 :: "string \<Rightarrow> string" where
  "split_part0 s = takeWhile (\<lambda>c. c \<noteq> CHR ''/'') s"

definition split_part1 :: "string \<Rightarrow> string option" where
  "split_part1 s =
     (case dropWhile (\<lambda>c. c \<noteq> CHR ''/'') s of
        [] \<Rightarrow> None
      | _ # rest \<Rightarrow> Some (takeWhile (\<lambda>c. c \<noteq> CHR ''/'') rest))"

definition digit_val :: "char \<Rightarrow> nat option" where
  "digit_val c = map_of (zip ''0123456789'' [0, 1, 2, 3, 4, 5, 6, 7, 8, 9]) c"

fun digits_value :: "nat \<Rightarrow> string \<Rightarrow> nat option" where
  "digits_value acc [] = Some acc"
| "digits_value acc (c # cs) =
     (case digit_val c of
        None \<Rightarrow> None
      | Some d \<Rightarrow> digits_value (10 * acc + d) cs)"

text \<open>
  \<open>Number\<close> is a builtin of JavaScript, not code of the program. The layout takes it as a
  parameter \<open>num\<close>: \<open>num s = Some x\<close> when \<open>Number(s)\<close> is the finite number \<open>x\<close>, and
  \<open>None\<close> when it is \<open>NaN\<close> or infinite. \<open>Number_of\<close> is \<open>Number\<close> on the strings the ratio
  buttons of the application produce: a run of decimal digits is its value (the empty
  string is 0). It is used where a concrete input is evaluated.
\<close>

type_synonym number_parser = "string \<Rightarrow> real option"

definition Number_of :: number_parser where
  "Number_of s = map_option real (digits_value 0 s)"

text \<open>
  The pair \<open>(rW, rH)\<close> of the source, when both are numbers and \<open>targetRatio = rW / rH\<close>
  is a finite non-zero number. Otherwise (\<open>parts[1]\<close> is \<open>undefined\<close>, a part is not a
  number, the numerator or the denominator is zero) the layout holds \<open>NaN\<close>, infinities or
  signed zeros, and the model gives \<open>None\<close>.
\<close>

definition ratio_parts :: "number_parser \<Rightarrow> string \<Rightarrow> (real \<times> real) option" where
  "ratio_parts num s =
     (case num (split_part0 s) of
        None \<Rightarrow> None
      | Some rW \<Rightarrow>
          (case split_part1 s of
             None \<Rightarrow> None
           | Some p1 \<Rightarrow>
               (case num p1 of
                  None \<Rightarrow> None
                | Some rH \<Rightarrow> if rW = 0 \<or> rH = 0 then None else Some (rW, rH))))"

text \<open>\<open>!image\<close>: the image source is \<open>null\<close> or the empty string.\<close>

definition no_image :: "string option \<Rightarrow> bool" where
  "no_image img = (case img of None \<Rightarrow> True | Some src \<Rightarrow> src = [])"

definition zero_layout :: computed_layout where
  "zero_layout = \<lparr>exportW = 0, exportH = 0, cardW = 0, cardH = 0\<rparr>"

text \<open>The \<open>layout\<close> memo of the Canvas component.\<close>

definition layout ::
  "number_parser \<Rightarrow> layout_settings \<Rightarrow> img_dimensions \<Rightarrow> string option \<Rightarrow> computed_layout option"
where
  "layout num settings imgDimensions img =
     (if no_image img \<or> nat_width imgDimensions = 0 then Some zero_layout
      else
        let natW = real (nat_width imgDimensions);
            natH = real (nat_height imgDimensions);
            displayScale = scale settings / 100;
            imageDisplayW = natW * displayScale;
            imageDisplayH = natH * displayScale;
            cW = imageDisplayW + inset settings * 2;
            cH = imageDisplayH + inset settings * 2
        in
          if aspectRatio settings = ''auto'' then
            Some \<lparr>exportW = cW + padding settings * 2, exportH = cH + padding settings * 2,
                  cardW = cW, cardH = cH\<rparr>
          else
            (case ratio_parts num (aspectRatio settings) of
               None \<Rightarrow> None
             | Some (rW, rH) \<Rightarrow>
                 let targetRatio = rW / rH;
                     minExportW = cW + padding settings * 2;
                     minExportH = cH + padding settings * 2;
                     eW = minExportW;
                     eH = eW / targetRatio
                 in
                   if eH < minExportH then
                     Some \<lparr>exportW = minExportH * targetRatio, exportH = minExportH,
                           cardW = cW, cardH = cH\<rparr>
                   else
                     Some \<lparr>exportW = eW, exportH = eH, cardW = cW, cardH = cH\<rparr>))"

text \<open>
  The \<open>viewportScale\<close> memo. \<open>scaleY\<close> divides by \<open>layout.exportH\<close>: when that is 0 the
  source gets \<open>+Infinity\<close> for a positive container height, and \<open>Math.min\<close> returns
  \<open>scaleX\<close>; for a zero container height it gets \<open>NaN\<close>, and for a negative one
  \<open>-Infinity\<close> (\<open>None\<close> here).
\<close>

definition FILL :: real where
  "FILL = 75 / 100"

definition viewportScale :: "size2 \<Rightarrow> computed_layout \<Rightarrow> real option" where
  "viewportScale containerSize lay =
     (if width containerSize = 0 \<or> exportW lay = 0 then Some (1 / 10)
      else
        let scaleX = (width containerSize * FILL) / exportW lay
        in
          if exportH lay = 0 then
            (if 0 < height containerSize * FILL then Some scaleX else None)
          else
            Some (min scaleX ((height containerSize * FILL) / exportH lay)))"

section \<open>Shadow geometry (Canvas component)\<close>



section \<open>Colour conversions (App component)\<close>

text \<open>
  \<open>rgbToHsl\<close>. The \<open>switch (max)\<close> of the source takes the first of the cases \<open>r\<close>, \<open>g\<close>,
  \<open>b\<close> that equals \<open>max\<close>, and one of them does. For channels between 0 and 255 no
  denominator is zero where it is used (lemma \<open>rgbToHsl_denominators\<close>); the program
  passes no other channels.
\<close>

definition rgbToHsl :: "real \<Rightarrow> real \<Rightarrow> real \<Rightarrow> real \<times> real \<times> real" where
  "rgbToHsl r0 g0 b0 =
     (let r = r0 / 255; g = g0 / 255; b = b0 / 255;
          mx = max r (max g b); mn = min r (min g b);
          l = (mx + mn) / 2
      in
        if mx = mn then (0, 0, l)
        else
          let d = mx - mn;
              s = (if l > 1 / 2 then d / (2 - mx - mn) else d / (mx + mn));
              h = (if mx = r then (g - b) / d + (if g < b then 6 else 0)
                   else if mx = g then (b - r) / d + 2
                   else (r - g) / d + 4)
          in (h / 6, s, l))"

definition hue2rgb :: "real \<Rightarrow> real \<Rightarrow> real \<Rightarrow> real" where
  "hue2rgb p q t0 =
     (let t1 = (if t0 < 0 then t0 + 1 else t0);
          t = (if t1 > 1 then t1 - 1 else t1)
      in
        if t < 1 / 6 then p + (q - p) * 6 * t
        else if t < 1 / 2 then q
        else if t < 2 / 3 then p + (q - p) * (2 / 3 - t) * 6
        else p)"

definition hex_digit :: "nat \<Rightarrow> char" where
  "hex_digit n = ''0123456789abcdef'' ! (n mod 16)"

text \<open>\<open>x.toString(16)\<close> for an integer \<open>x\<close>.\<close>

function toString16_nat :: "nat \<Rightarrow> string" where
  "toString16_nat n =
     (if n < 16 then [hex_digit n] else toString16_nat (n div 16) @ [hex_digit (n mod 16)])"
  by pat_completeness auto
termination
  by (relation "measure (\<lambda>n. n)") auto

declare toString16_nat.simps [simp del]

definition toString16 :: "int \<Rightarrow> string" where
  "toString16 x = (if x < 0 then CHR ''-'' # toString16_nat (nat (- x)) else toString16_nat (nat x))"

definition toHex :: "int \<Rightarrow> string" where
  "toHex x = (let hex = toString16 x in if length hex = 1 then CHR ''0'' # hex else hex)"

text \<open>The three channels that \<open>hslToHex\<close> rounds, before it prints them.\<close>

definition hslToRgb :: "real \<Rightarrow> real \<Rightarrow> real \<Rightarrow> int \<times> int \<times> int" where
  "hslToRgb h s l =
     (let q = (if l < 1 / 2 then l * (1 + s) else l + s - l * s);
          p = 2 * l - q;
          r = js_round (hue2rgb p q (h + 1 / 3) * 255);
          g = js_round (hue2rgb p q h * 255);
          b = js_round (hue2rgb p q (h - 1 / 3) * 255)
      in (r, g, b))"

definition hslToHex :: "real \<Rightarrow> real \<Rightarrow> real \<Rightarrow> string" where
  "hslToHex h s l =
     (case hslToRgb h s l of (r, g, b) \<Rightarrow> CHR ''#'' # toHex r @ toHex g @ toHex b)"

text \<open>The hue, \<open>newS\<close> and \<open>newL\<close> that \<open>toMorandi\<close> hands to \<open>hslToHex\<close>.\<close>

definition morandiHsl :: "real \<Rightarrow> real \<Rightarrow> real \<Rightarrow> real \<times> real \<times> real" where
  "morandiHsl r g b =
     (case rgbToHsl r g b of
        (h, s, l) \<Rightarrow>
          let newS = 5 / 100 + (min s (1 / 2) * (20 / 100));
              newL = 75 / 100 + (min l 1 * (10 / 100))
          in (h, newS, newL))"

definition toMorandi :: "real \<Rightarrow> real \<Rightarrow> real \<Rightarrow> string" where
  "toMorandi r g b = (case morandiHsl r g b of (h, newS, newL) \<Rightarrow> hslToHex h newS newL)"





section \<open>Palette extraction (App component, getImageColors)\<close>

text \<open>
  One pixel of \<open>ctx.getImageData(0, 0, 50, 50).data\<close>: four consecutive bytes of the array
  (each from 0 to 255), which the counting loop reads together (\<open>i += 4\<close>).
\<close>

record pixel =
  px_r :: nat
  px_g :: nat
  px_b :: nat
  px_a :: nat

text \<open>
  What happens to the image element: \<open>onerror\<close> fires, or \<open>onload\<close> fires and the canvas
  gives no 2D context, or \<open>onload\<close> fires and the 50 by 50 sample is read back.
\<close>

datatype image_outcome = LoadError | NoContext | Sampled "pixel list"

text \<open>
  The key \<open>`${rB},${gB},${bB}`\<close> is kept as the triple of numbers that it prints and that
  \<open>color.split(',').map(Number)\<close> reads back. \<open>colorCounts\<close> is the list of its entries in
  insertion order, the order in which \<open>Object.entries\<close> lists them.
\<close>

type_synonym color_key = "nat \<times> nat \<times> nat"

definition bin_key :: "pixel \<Rightarrow> color_key" where
  "bin_key px =
     (let bin = 32;
          rB = (px_r px div bin) * bin;
          gB = (px_g px div bin) * bin;
          bB = (px_b px div bin) * bin
      in (rB, gB, bB))"

text \<open>\<open>colorCounts[key] = (colorCounts[key] || 0) + 1\<close>\<close>

fun increment :: "color_key \<Rightarrow> (color_key \<times> nat) list \<Rightarrow> (color_key \<times> nat) list" where
  "increment key [] = [(key, 0 + 1)]"
| "increment key ((k, n) # rest) =
     (if k = key then (k, n + 1) # rest else (k, n) # increment key rest)"

definition brightness :: "pixel \<Rightarrow> real" where
  "brightness px = real (px_r px + px_g px + px_b px) / 3"

definition count_pixel :: "(color_key \<times> nat) list \<Rightarrow> pixel \<Rightarrow> (color_key \<times> nat) list" where
  "count_pixel colorCounts px =
     (if px_a px < 128 then colorCounts
      else if brightness px < 60 then colorCounts
      else if brightness px > 230 then colorCounts
      else increment (bin_key px) colorCounts)"

definition countColors :: "pixel list \<Rightarrow> (color_key \<times> nat) list" where
  "countColors imageData = foldl count_pixel [] imageData"

text \<open>
  \<open>.sort(([, a], [, b]) => b - a)\<close> is a stable sort by descending count, as is
  \<open>sort_key\<close> on the negated count.
\<close>

definition sortedColors :: "(color_key \<times> nat) list \<Rightarrow> string list" where
  "sortedColors colorCounts =
     map (\<lambda>((r, g, b), n). toMorandi (real r) (real g) (real b))
       (sort_key (\<lambda>(k, n). - int n) colorCounts)"

definition isDistinct :: "string \<Rightarrow> string \<Rightarrow> bool" where
  "isDistinct c1 c2 = (c1 \<noteq> c2)"

text \<open>The loop \<open>for (let i = 1; i < sortedColors.length; i++)\<close> over the remaining colours.\<close>

fun pickDistinct :: "string list \<Rightarrow> string list \<Rightarrow> string list" where
  "pickDistinct palette [] = palette"
| "pickDistinct palette (c # rest) =
     (if length palette \<ge> 5 then palette
      else if list_all (\<lambda>p. isDistinct p c) palette then pickDistinct (palette @ [c]) rest
      else pickDistinct palette rest)"

definition defaultMorandi :: "string list" where
  "defaultMorandi = [''#e2e4e9'', ''#dbeafe'', ''#f3e8ff'', ''#fae8ff'', ''#e0f2fe'']"

text \<open>\<open>while (palette.length < 5) palette.push(defaultMorandi[fillIdx++ % defaultMorandi.length])\<close>\<close>

function fillPalette :: "string list \<Rightarrow> nat \<Rightarrow> string list" where
  "fillPalette palette fillIdx =
     (if length palette < 5 then
        fillPalette (palette @ [defaultMorandi ! (fillIdx mod length defaultMorandi)]) (fillIdx + 1)
      else palette)"
  by pat_completeness auto
termination
  by (relation "measure (\<lambda>(palette, fillIdx). 5 - length palette)") auto

declare fillPalette.simps [simp del]

record image_colors =
  dominant :: string
  palette :: "string list"

definition pickedColors :: "pixel list \<Rightarrow> string list" where
  "pickedColors imageData =
     (case sortedColors (countColors imageData) of
        [] \<Rightarrow> []
      | c0 # rest \<Rightarrow> pickDistinct [c0] rest)"

definition getImageColors :: "image_outcome \<Rightarrow> image_colors" where
  "getImageColors outcome =
     (case outcome of
        LoadError \<Rightarrow> \<lparr>dominant = ''#e5e5e5'', palette = []\<rparr>
      | NoContext \<Rightarrow> \<lparr>dominant = ''#e5e5e5'', palette = []\<rparr>
      | Sampled imageData \<Rightarrow>
          let pal = fillPalette (pickedColors imageData) 0
          in \<lparr>dominant = pal ! 0, palette = pal\<rparr>)"

section \<open>Seeded shuffle (MeshGradient component)\<close>

text \<open>
  A result \<open>None\<close> of the functions below says that the source indexed the array
  \<open>colors\<close> outside its bounds (where JavaScript reads \<open>undefined\<close> or lengthens the
  array).
\<close>

definition meshFallback :: "string list" where
  "meshFallback = [''#eef2ff'', ''#f0fdf4'', ''#fff1f2'', ''#fafaf9'', ''#f5f3ff'']"

definition meshBase :: "string list \<Rightarrow> string list" where
  "meshBase pal = (if length pal \<ge> 3 then pal else meshFallback)"

text \<open>\<open>while (colors.length < 5) colors.push(colors[colors.length % colors.length])\<close>\<close>

function padColors :: "string list \<Rightarrow> string list option" where
  "padColors colors =
     (if length colors < 5 then
        (if length colors mod length colors < length colors then
           padColors (colors @ [colors ! (length colors mod length colors)])
         else None)
      else Some colors)"
  by pat_completeness auto
termination
  by (relation "measure (\<lambda>colors. 5 - length colors)") auto

declare padColors.simps [simp del]

text \<open>
  \<open>random()\<close>: the draw and the incremented \<open>currentSeed\<close>. \<open>Math.sin\<close> is the real sine.
\<close>

definition random :: "int \<Rightarrow> real \<times> int" where
  "random currentSeed =
     (let x = sin (real_of_int currentSeed) * 10000
      in (x - real_of_int \<lfloor>x\<rfloor>, currentSeed + 1))"

text \<open>
  The loop \<open>while (currentIndex !== 0)\<close>; the first argument is \<open>currentIndex\<close> on entry,
  and \<open>[colors[currentIndex], colors[randomIndex]] = [colors[randomIndex], colors[currentIndex]]\<close>
  reads both entries before it writes them.
\<close>

fun fisherYates :: "nat \<Rightarrow> int \<Rightarrow> string list \<Rightarrow> string list option" where
  "fisherYates 0 currentSeed colors = Some colors"
| "fisherYates (Suc n) currentSeed colors =
     (case random currentSeed of
        (rnd, nextSeed) \<Rightarrow>
          let randomIndex = \<lfloor>rnd * real (Suc n)\<rfloor>;
              currentIndex = n
          in
            if 0 \<le> randomIndex \<and> nat randomIndex < length colors \<and> currentIndex < length colors
            then
              fisherYates currentIndex nextSeed
                (colors[currentIndex := colors ! nat randomIndex,
                        nat randomIndex := colors ! currentIndex])
            else None)"

definition shuffled :: "string list \<Rightarrow> int \<Rightarrow> string list option" where
  "shuffled pal seed =
     (case padColors (meshBase pal) of
        None \<Rightarrow> None
      | Some colors \<Rightarrow> fisherYates (length colors) seed colors)"

section \<open>Properties of the viewport scale\<close>




text \<open>
  Claim C6. When the container size is zero or the export size is zero,
  \<open>viewportScale\<close> returns the fallback 0.1. The guard of the source reads the two widths:
  a zero size (the initial container size 0 by 0, the all-zero layout of an image that
  is not ready) has a zero width.
\<close>

theorem viewportScale_fallback:
  assumes "width c = 0 \<or> exportW l = 0"
  shows "viewportScale c l = Some (1 / 10)"
  using assms by (simp add: viewportScale_def)

theorem viewportScale_fallback_witness:
  "viewportScale \<lparr>width = 0, height = 0\<rparr> zero_layout = Some (1 / 10)
   \<and> viewportScale \<lparr>width = 800, height = 600\<rparr> zero_layout = Some (1 / 10)
   \<and> viewportScale \<lparr>width = 0, height = 0\<rparr>
        \<lparr>exportW = 1160, exportH = 660, cardW = 1032, cardH = 532\<rparr> = Some (1 / 10)"
  using viewportScale_fallback [of "\<lparr>width = 0, height = 0\<rparr>" zero_layout]
    viewportScale_fallback [of "\<lparr>width = 800, height = 600\<rparr>" zero_layout]
    viewportScale_fallback [of "\<lparr>width = 0, height = 0\<rparr>"
      "\<lparr>exportW = 1160, exportH = 660, cardW = 1032, cardH = 532\<rparr>"]
  by (simp add: zero_layout_def)

text \<open>
  The guard does not read the heights: a container of positive width and zero height gets
  the scale 0 for a layout of positive size.
\<close>

lemma viewportScale_zero_height:
  assumes "0 < width c" "height c = 0" "0 < exportW l" "0 < exportH l"
  shows "viewportScale c l = Some 0"
proof -
  have "0 \<le> width c * FILL / exportW l"
    using assms by (simp add: FILL_def)
  with assms show ?thesis
    by (simp add: viewportScale_def Let_def)
qed

section \<open>Properties of the layout engine\<close>


lemma ratio_parts_16_9: "ratio_parts Number_of ''16/9'' = Some (16, 9)"
  by (simp add: ratio_parts_def split_part0_def split_part1_def Number_of_def digit_val_def)

lemma layout_not_ready_zero:
  "no_image img \<or> nat_width d = 0 \<Longrightarrow> layout num s d img = Some zero_layout"
  by (auto simp: layout_def)

lemma layout_ready_auto:
  assumes "\<not> no_image img" "0 < nat_width d" "aspectRatio s = ''auto''"
  shows "layout num s d img =
           Some \<lparr>exportW = real (nat_width d) * (scale s / 100) + inset s * 2 + padding s * 2,
                 exportH = real (nat_height d) * (scale s / 100) + inset s * 2 + padding s * 2,
                 cardW = real (nat_width d) * (scale s / 100) + inset s * 2,
                 cardH = real (nat_height d) * (scale s / 100) + inset s * 2\<rparr>"
  using assms by (simp add: layout_def Let_def)

lemma layout_ready_fixed:
  assumes "\<not> no_image img" "0 < nat_width d" "aspectRatio s \<noteq> ''auto''"
    and "ratio_parts num (aspectRatio s) = Some (W, H)"
  shows "layout num s d img =
     (let cW = real (nat_width d) * (scale s / 100) + inset s * 2;
          cH = real (nat_height d) * (scale s / 100) + inset s * 2;
          minW = cW + padding s * 2;
          minH = cH + padding s * 2
      in if minW / (W / H) < minH
         then Some \<lparr>exportW = minH * (W / H), exportH = minH, cardW = cW, cardH = cH\<rparr>
         else Some \<lparr>exportW = minW, exportH = minW / (W / H), cardW = cW, cardH = cH\<rparr>)"
  using assms by (simp add: layout_def Let_def)




lemma layout_ready_not_zero:
  assumes img: "\<not> no_image img" and w: "0 < nat_width d"
    and ins: "0 \<le> inset s" and sc: "0 < scale s"
  shows "layout num s d img \<noteq> Some zero_layout"
proof -
  have "0 < real (nat_width d) * (scale s / 100)" using w sc by simp
  then have cWpos: "0 < real (nat_width d) * (scale s / 100) + inset s * 2"
    using ins by linarith
  have "\<forall>l. layout num s d img = Some l \<longrightarrow> cardW l = real (nat_width d) * (scale s / 100) + inset s * 2"
    using img w by (auto simp: layout_def Let_def split: option.splits if_splits)
  with cWpos show ?thesis
    by (auto simp: zero_layout_def)
qed

lemma layout_zero_height_fixed:
  assumes img: "\<not> no_image img" and w: "0 < nat_width d" and h: "nat_height d = 0"
    and pad: "0 \<le> padding s" and ins: "0 \<le> inset s" and sc: "0 < scale s"
    and fixed: "aspectRatio s \<noteq> ''auto''"
    and rp: "ratio_parts num (aspectRatio s) = Some (W, H)"
    and WH: "0 < W" "0 < H"
  shows "\<exists>l. layout num s d img = Some l \<and> cardH l = 2 * inset s \<and> 0 < exportW l \<and> 0 < exportH l"
proof -
  define cW where "cW = real (nat_width d) * (scale s / 100) + inset s * 2"
  define minW where "minW = cW + padding s * 2"
  define minH where "minH = inset s * 2 + padding s * 2"
  define t where "t = W / H"
  from WH have t: "0 < t" by (simp add: t_def)
  have "0 < real (nat_width d) * (scale s / 100)" using w sc by simp
  then have "0 < cW" using ins by (simp add: cW_def)
  then have minWpos: "0 < minW" using pad by (simp add: minW_def)
  then have cand: "0 < minW / t" using t by simp
  have lay: "layout num s d img =
      (if minW / t < minH
       then Some \<lparr>exportW = minH * t, exportH = minH, cardW = cW, cardH = inset s * 2\<rparr>
       else Some \<lparr>exportW = minW, exportH = minW / t, cardW = cW, cardH = inset s * 2\<rparr>)"
    using layout_ready_fixed [OF img w fixed rp] h
    by (simp add: Let_def cW_def minW_def minH_def t_def)
  show ?thesis
  proof (cases "minW / t < minH")
    case True
    with cand have "0 < minH" by linarith
    with True t lay show ?thesis by simp
  next
    case False
    with cand minWpos lay show ?thesis by simp
  qed
qed

text \<open>
  Claim C9, as amended. \<open>layout\<close> returns the all-zero layout when the image is absent or
  the natural width is 0, and (for padding and inset not negative and a positive scale)
  in no other case. A natural size with positive width and zero height is treated as
  ready: the card height is \<open>2 * inset\<close> and the export width is positive; the export
  height is \<open>2 * inset + 2 * padding\<close> under \<open>auto\<close>, which is 0 when inset and padding
  are both 0, and it is positive under a fixed ratio \<open>W/H\<close> of positive numbers.
\<close>

theorem layout_ready_iff:
  fixes s :: layout_settings and d :: img_dimensions
  shows "(no_image img \<or> nat_width d = 0 \<longrightarrow> layout num s d img = Some zero_layout)
   \<and> (\<not> no_image img \<and> 0 < nat_width d \<and> 0 \<le> padding s \<and> 0 \<le> inset s \<and> 0 < scale s
        \<longrightarrow> layout num s d img \<noteq> Some zero_layout)
   \<and> (\<not> no_image img \<and> 0 < nat_width d \<and> nat_height d = 0
        \<and> 0 \<le> padding s \<and> 0 \<le> inset s \<and> 0 < scale s \<and> aspectRatio s = ''auto''
        \<longrightarrow> (\<exists>l. layout num s d img = Some l \<and> cardH l = 2 * inset s \<and> 0 < exportW l
                 \<and> exportH l = 2 * inset s + 2 * padding s))
   \<and> (\<not> no_image img \<and> 0 < nat_width d \<and> nat_height d = 0
        \<and> 0 \<le> padding s \<and> 0 \<le> inset s \<and> 0 < scale s \<and> aspectRatio s \<noteq> ''auto''
        \<and> ratio_parts num (aspectRatio s) = Some (W, H) \<and> 0 < W \<and> 0 < H
        \<longrightarrow> (\<exists>l. layout num s d img = Some l \<and> cardH l = 2 * inset s \<and> 0 < exportW l
                 \<and> 0 < exportH l))"
proof (intro conjI impI)
  assume "no_image img \<or> nat_width d = 0"
  then show "layout num s d img = Some zero_layout" by (rule layout_not_ready_zero)
next
  assume "\<not> no_image img \<and> 0 < nat_width d \<and> 0 \<le> padding s \<and> 0 \<le> inset s \<and> 0 < scale s"
  then show "layout num s d img \<noteq> Some zero_layout"
    using layout_ready_not_zero [of img d s num] by blast
next
  assume a: "\<not> no_image img \<and> 0 < nat_width d \<and> nat_height d = 0
        \<and> 0 \<le> padding s \<and> 0 \<le> inset s \<and> 0 < scale s \<and> aspectRatio s = ''auto''"
  then have "0 < real (nat_width d) * (scale s / 100)" by simp
  with a have "0 < real (nat_width d) * (scale s / 100) + inset s * 2 + padding s * 2"
    by linarith
  with a show "\<exists>l. layout num s d img = Some l \<and> cardH l = 2 * inset s \<and> 0 < exportW l
                 \<and> exportH l = 2 * inset s + 2 * padding s"
    using layout_ready_auto [of img d s num] by simp
next
  assume "\<not> no_image img \<and> 0 < nat_width d \<and> nat_height d = 0
        \<and> 0 \<le> padding s \<and> 0 \<le> inset s \<and> 0 < scale s \<and> aspectRatio s \<noteq> ''auto''
        \<and> ratio_parts num (aspectRatio s) = Some (W, H) \<and> 0 < W \<and> 0 < H"
  then show "\<exists>l. layout num s d img = Some l \<and> cardH l = 2 * inset s \<and> 0 < exportW l
                 \<and> 0 < exportH l"
    using layout_zero_height_fixed [of img d s num W H] by blast
qed

theorem layout_ready_iff_witness:
  "layout Number_of \<lparr>padding = 64, inset = 16, scale = 100, aspectRatio = ''auto''\<rparr>
      \<lparr>nat_width = 0, nat_height = 500\<rparr> (Some ''data:image/png;base64,AAAA'') = Some zero_layout
   \<and> layout Number_of \<lparr>padding = 64, inset = 16, scale = 100, aspectRatio = ''auto''\<rparr>
      \<lparr>nat_width = 1000, nat_height = 500\<rparr> None = Some zero_layout
   \<and> layout Number_of \<lparr>padding = 64, inset = 16, scale = 100, aspectRatio = ''auto''\<rparr>
      \<lparr>nat_width = 1000, nat_height = 0\<rparr> (Some ''data:image/png;base64,AAAA'') \<noteq> Some zero_layout
   \<and> (\<exists>l. layout Number_of \<lparr>padding = 64, inset = 16, scale = 100, aspectRatio = ''auto''\<rparr>
          \<lparr>nat_width = 1000, nat_height = 0\<rparr> (Some ''data:image/png;base64,AAAA'') = Some l
        \<and> cardH l = 2 * 16 \<and> 0 < exportW l \<and> exportH l = 2 * 16 + 2 * 64)
   \<and> (\<exists>l. layout Number_of \<lparr>padding = 0, inset = 0, scale = 100, aspectRatio = ''16/9''\<rparr>
          \<lparr>nat_width = 1000, nat_height = 0\<rparr> (Some ''data:image/png;base64,AAAA'') = Some l
        \<and> cardH l = 2 * 0 \<and> 0 < exportW l \<and> 0 < exportH l)"
proof -
  let ?auto = "\<lparr>padding = 64, inset = 16, scale = 100, aspectRatio = ''auto''\<rparr>"
  let ?fixed = "\<lparr>padding = 0, inset = 0, scale = 100, aspectRatio = ''16/9''\<rparr>"
  let ?img = "Some ''data:image/png;base64,AAAA''"
  have img: "\<not> no_image ?img" "no_image None" by (simp_all add: no_image_def)
  note a = layout_ready_iff [of ?img "\<lparr>nat_width = 0, nat_height = 500\<rparr>" Number_of ?auto]
  note b = layout_ready_iff [of None "\<lparr>nat_width = 1000, nat_height = 500\<rparr>" Number_of ?auto]
  note c = layout_ready_iff [of ?img "\<lparr>nat_width = 1000, nat_height = 0\<rparr>" Number_of ?auto]
  note e = layout_ready_iff [of ?img "\<lparr>nat_width = 1000, nat_height = 0\<rparr>" Number_of ?fixed 16 9]
  show ?thesis
    using a b c e img ratio_parts_16_9 by simp
qed

text \<open>
  With inset 0 and padding 0 under \<open>auto\<close>, a natural size 1000 by 0 gives the export
  size 1000 by 0: the layout is not the all-zero one, and its export height is not
  positive.
\<close>

theorem layout_zero_height_counterexample:
  "layout Number_of \<lparr>padding = 0, inset = 0, scale = 100, aspectRatio = ''auto''\<rparr>
      \<lparr>nat_width = 1000, nat_height = 0\<rparr> (Some ''data:image/png;base64,AAAA'')
    = Some \<lparr>exportW = 1000, exportH = 0, cardW = 1000, cardH = 0\<rparr>
   \<and> \<not> 0 < exportH \<lparr>exportW = 1000, exportH = 0, cardW = 1000, cardH = 0\<rparr>"
  by (simp add: layout_def no_image_def Let_def)

section \<open>Properties of the shadow geometry\<close>








section \<open>Properties of the colour counting\<close>

lemma increment_neq: "increment key cc \<noteq> cc"
  by (induction cc) (auto split: if_splits)

lemma map_of_increment:
  "map_of (increment key cc) k =
     (if k = key then Some (case map_of cc key of None \<Rightarrow> 1 | Some n \<Rightarrow> n + 1) else map_of cc k)"
  by (induction cc) auto

lemma count_pixel_cases:
  "count_pixel cc px =
     (if 128 \<le> px_a px \<and> 60 \<le> brightness px \<and> brightness px \<le> 230
      then increment (bin_key px) cc else cc)"
  by (simp add: count_pixel_def not_less)

lemma countColors_snoc: "countColors (xs @ [px]) = count_pixel (countColors xs) px"
  by (simp add: countColors_def)

lemma map_of_countColors:
  "map_of (countColors imageData) key =
     (let n = length (filter (\<lambda>px. 128 \<le> px_a px \<and> 60 \<le> brightness px \<and> brightness px \<le> 230
                                   \<and> bin_key px = key) imageData)
      in if n = 0 then None else Some n)"
proof (induction imageData rule: rev_induct)
  case Nil
  show ?case by (simp add: countColors_def)
next
  case (snoc px xs)
  show ?case
    using snoc.IH
    by (auto simp: countColors_snoc count_pixel_cases map_of_increment Let_def
        split: option.splits if_splits)
qed

lemma keys_increment:
  "map fst (increment key cc) =
     (if key \<in> set (map fst cc) then map fst cc else map fst cc @ [key])"
proof (induction cc)
  case Nil
  show ?case by simp
next
  case (Cons e cc)
  obtain k n where e: "e = (k, n)" by (cases e)
  show ?case
  proof (cases "k = key")
    case True
    then show ?thesis by (simp add: e)
  next
    case False
    then have "key \<noteq> k" by blast
    with False Cons.IH show ?thesis by (simp add: e)
  qed
qed

lemma distinct_increment:
  "distinct (map fst cc) \<Longrightarrow> distinct (map fst (increment key cc))"
  by (simp only: keys_increment split: if_splits) simp

lemma distinct_countColors: "distinct (map fst (countColors imageData))"
  by (induction imageData rule: rev_induct)
    (simp_all add: countColors_def count_pixel_cases distinct_increment)

lemma bin_key_floor:
  "bin_key px = (32 * (px_r px div 32), 32 * (px_g px div 32), 32 * (px_b px div 32))"
  by (simp add: bin_key_def Let_def)

text \<open>
  Claim C8, as amended. A sampled pixel contributes to a colour bin if and only if its
  alpha is at least 128 and its mean brightness \<open>(r + g + b) / 3\<close> is at least 60 and at
  most 230 (both bounds included); a pixel that contributes is counted under the key that
  floors each channel to a multiple of 32; every key is listed once, and the count of a
  key is the number of contributing pixels with that key.
\<close>

theorem countColors_bins:
  "(count_pixel cc px \<noteq> cc) = (128 \<le> px_a px \<and> 60 \<le> brightness px \<and> brightness px \<le> 230)
   \<and> count_pixel cc px =
       (if 128 \<le> px_a px \<and> 60 \<le> brightness px \<and> brightness px \<le> 230
        then increment (bin_key px) cc else cc)
   \<and> bin_key px = (32 * (px_r px div 32), 32 * (px_g px div 32), 32 * (px_b px div 32))
   \<and> distinct (map fst (countColors imageData))
   \<and> map_of (countColors imageData) key =
       (let n = length (filter (\<lambda>q. 128 \<le> px_a q \<and> 60 \<le> brightness q \<and> brightness q \<le> 230
                                   \<and> bin_key q = key) imageData)
        in if n = 0 then None else Some n)"
proof (intro conjI)
  show "(count_pixel cc px \<noteq> cc) = (128 \<le> px_a px \<and> 60 \<le> brightness px \<and> brightness px \<le> 230)"
    using increment_neq [of "bin_key px" cc] by (simp add: count_pixel_cases)
qed (rule count_pixel_cases bin_key_floor distinct_countColors map_of_countColors)+

theorem countColors_bins_witness:
  "countColors [\<lparr>px_r = 200, px_g = 100, px_b = 40, px_a = 255\<rparr>,
                \<lparr>px_r = 10, px_g = 20, px_b = 30, px_a = 255\<rparr>,
                \<lparr>px_r = 70, px_g = 80, px_b = 90, px_a = 200\<rparr>,
                \<lparr>px_r = 70, px_g = 80, px_b = 90, px_a = 127\<rparr>,
                \<lparr>px_r = 250, px_g = 250, px_b = 250, px_a = 255\<rparr>,
                \<lparr>px_r = 210, px_g = 120, px_b = 33, px_a = 128\<rparr>]
     = [((192, 96, 32), 2), ((64, 64, 64), 1)]
   \<and> count_pixel [] \<lparr>px_r = 200, px_g = 100, px_b = 40, px_a = 255\<rparr> \<noteq> []
   \<and> bin_key \<lparr>px_r = 200, px_g = 100, px_b = 40, px_a = 255\<rparr> = (192, 96, 32)"
  using countColors_bins [of "[]" "\<lparr>px_r = 200, px_g = 100, px_b = 40, px_a = 255\<rparr>"]
  by (simp add: countColors_def count_pixel_def brightness_def bin_key_def)

text \<open>
  A pixel of brightness exactly 60, and one of brightness exactly 230, are counted: the
  brightness need not lie strictly between 60 and 230.
\<close>

theorem countColors_boundary_counterexample:
  "countColors [\<lparr>px_r = 60, px_g = 60, px_b = 60, px_a = 255\<rparr>] = [((32, 32, 32), 1)]
   \<and> brightness \<lparr>px_r = 60, px_g = 60, px_b = 60, px_a = 255\<rparr> = 60
   \<and> countColors [\<lparr>px_r = 230, px_g = 230, px_b = 230, px_a = 255\<rparr>] = [((224, 224, 224), 1)]
   \<and> brightness \<lparr>px_r = 230, px_g = 230, px_b = 230, px_a = 255\<rparr> = 230"
  by (simp add: countColors_def count_pixel_def brightness_def bin_key_def)

section \<open>Properties of the Morandi transform\<close>

lemma rgbToHsl_denominators:
  fixes r g b :: real
  defines "mx \<equiv> max (r / 255) (max (g / 255) (b / 255))"
    and "mn \<equiv> min (r / 255) (min (g / 255) (b / 255))"
  assumes "0 \<le> r" "r \<le> 255" "0 \<le> g" "g \<le> 255" "0 \<le> b" "b \<le> 255" and ne: "mx \<noteq> mn"
  shows "mx - mn \<noteq> 0 \<and> 2 - mx - mn \<noteq> 0 \<and> mx + mn \<noteq> 0"
proof -
  have mx: "mx \<le> 1" using assms(3-8) by (simp add: mx_def)
  have mn: "0 \<le> mn" using assms(3-8) by (simp add: mn_def)
  have "mn \<le> r / 255" unfolding mn_def by (rule min.cobounded1)
  moreover have "r / 255 \<le> mx" unfolding mx_def by (rule max.cobounded1)
  ultimately have "mn < mx" using ne by linarith
  with mx mn show ?thesis by simp
qed





























lemma toHex_examples:
  "toHex 210 = ''d2''" "toHex 201 = ''c9''" "toHex 195 = ''c3''"
  "toHex 194 = ''c2''" "toHex 188 = ''bc''"
  by (simp_all add: toHex_def toString16_def toString16_nat.simps hex_digit_def Let_def)





section \<open>Properties of the palette extraction\<close>

lemma length_pickDistinct:
  "length acc \<le> 5 \<Longrightarrow> length (pickDistinct acc rest) \<le> 5"
  by (induction rest arbitrary: acc) auto

lemma distinct_pickDistinct:
  "distinct acc \<Longrightarrow> distinct (pickDistinct acc rest)"
  by (induction rest arbitrary: acc) (auto simp: isDistinct_def list_all_iff)

lemma length_pickedColors: "length (pickedColors imageData) \<le> 5"
  by (simp add: pickedColors_def length_pickDistinct split: list.splits)

lemma distinct_pickedColors: "distinct (pickedColors imageData)"
  by (simp add: pickedColors_def distinct_pickDistinct split: list.splits)

lemma fillPalette_steps:
  "5 - length pal = n \<Longrightarrow>
   fillPalette pal i =
     pal @ map (\<lambda>j. defaultMorandi ! (j mod length defaultMorandi)) [i ..< i + n]"
proof (induction n arbitrary: pal i)
  case 0
  then have "\<not> length pal < 5" by simp
  then show ?case by (subst fillPalette.simps) simp
next
  case (Suc n)
  let ?f = "\<lambda>j. defaultMorandi ! (j mod length defaultMorandi)"
  from Suc.prems have lt: "length pal < 5" by simp
  from Suc.prems have n: "5 - length (pal @ [?f i]) = n" by simp
  have u: "[i ..< i + Suc n] = i # [Suc i ..< i + Suc n]"
    by (rule upt_conv_Cons) simp
  have "fillPalette pal i = fillPalette (pal @ [?f i]) (i + 1)"
    using lt by (subst fillPalette.simps) simp
  also have "\<dots> = (pal @ [?f i]) @ map ?f [i + 1 ..< i + 1 + n]"
    by (rule Suc.IH [OF n])
  also have "\<dots> = pal @ map ?f (i # [Suc i ..< i + Suc n])"
    by simp
  finally show ?case
    by (simp only: u)
qed

lemma fillPalette_eq:
  "fillPalette pal i =
     pal @ map (\<lambda>j. defaultMorandi ! (j mod length defaultMorandi)) [i ..< i + (5 - length pal)]"
  by (rule fillPalette_steps) (rule refl)

lemma default_prefix:
  assumes "n \<le> 5"
  shows "map (\<lambda>j. defaultMorandi ! (j mod length defaultMorandi)) [0 ..< n] = take n defaultMorandi"
proof (rule nth_equalityI)
  show "length (map (\<lambda>j. defaultMorandi ! (j mod length defaultMorandi)) [0 ..< n])
      = length (take n defaultMorandi)"
    using assms by (simp add: defaultMorandi_def)
next
  fix i
  assume "i < length (map (\<lambda>j. defaultMorandi ! (j mod length defaultMorandi)) [0 ..< n])"
  then have "i < n" by simp
  with assms have "i mod length defaultMorandi = i" by (simp add: defaultMorandi_def)
  with \<open>i < n\<close> show "map (\<lambda>j. defaultMorandi ! (j mod length defaultMorandi)) [0 ..< n] ! i
      = take n defaultMorandi ! i"
    by simp
qed

lemma fillPalette_0:
  "fillPalette pal 0 = pal @ take (5 - length pal) defaultMorandi"
  by (simp add: fillPalette_eq default_prefix)

lemma length_fillPalette_0:
  "length pal \<le> 5 \<Longrightarrow> length (fillPalette pal 0) = 5"
  by (simp add: fillPalette_0 defaultMorandi_def)

text \<open>
  Claim C1, as amended. When the image loads and the canvas gives a 2D context, whatever
  the sampled pixels are (a solid colour, a fully transparent image), the returned palette
  has length exactly 5: the at most 5 distinct colours picked, followed by the first
  entries of the fixed 5-entry fallback list, and \<open>dominant\<close> is its first entry. When
  there is no 2D context, or the image fails to load, the returned palette is empty and
  \<open>dominant\<close> is \<open>#e5e5e5\<close>.
\<close>

theorem getImageColors_palette:
  "getImageColors LoadError = \<lparr>dominant = ''#e5e5e5'', palette = []\<rparr>
   \<and> getImageColors NoContext = \<lparr>dominant = ''#e5e5e5'', palette = []\<rparr>
   \<and> length (palette (getImageColors (Sampled imageData))) = 5
   \<and> length (pickedColors imageData) \<le> 5
   \<and> distinct (pickedColors imageData)
   \<and> palette (getImageColors (Sampled imageData))
       = pickedColors imageData @ take (5 - length (pickedColors imageData)) defaultMorandi
   \<and> dominant (getImageColors (Sampled imageData))
       = hd (palette (getImageColors (Sampled imageData)))"
proof -
  let ?pal = "fillPalette (pickedColors imageData) 0"
  have len: "length ?pal = 5"
    by (rule length_fillPalette_0) (rule length_pickedColors)
  then have "?pal \<noteq> []" by auto
  then have "?pal ! 0 = hd ?pal" by (simp add: hd_conv_nth)
  with len show ?thesis
    by (simp add: getImageColors_def Let_def length_pickedColors distinct_pickedColors
        fillPalette_0)
qed

lemma rgbToHsl_192_96_32: "rgbToHsl 192 96 32 = (1 / 15, 5 / 7, 112 / 255)"
  by (simp add: rgbToHsl_def Let_def)

lemma morandiHsl_192_96_32: "morandiHsl 192 96 32 = (1 / 15, 3 / 20, 4049 / 5100)"
  by (simp add: morandiHsl_def rgbToHsl_192_96_32 Let_def)

lemma hslToRgb_192_96_32: "hslToRgb (1 / 15) (3 / 20) (4049 / 5100) = (210, 201, 195)"
  by (simp add: hslToRgb_def hue2rgb_def js_round_def Let_def)

lemma toMorandi_192_96_32: "toMorandi 192 96 32 = ''#d2c9c3''"
  by (simp add: toMorandi_def morandiHsl_192_96_32 hslToHex_def hslToRgb_192_96_32 toHex_examples)

lemma rgbToHsl_64: "rgbToHsl 64 64 64 = (0, 0, 64 / 255)"
  by (simp add: rgbToHsl_def Let_def)

lemma morandiHsl_64: "morandiHsl 64 64 64 = (0, 1 / 20, 3953 / 5100)"
  by (simp add: morandiHsl_def rgbToHsl_64 Let_def)

lemma hslToRgb_64: "hslToRgb 0 (1 / 20) (3953 / 5100) = (201, 195, 195)"
  by (simp add: hslToRgb_def hue2rgb_def js_round_def Let_def)

lemma toMorandi_64: "toMorandi 64 64 64 = ''#c9c3c3''"
  by (simp add: toMorandi_def morandiHsl_64 hslToHex_def hslToRgb_64 toHex_examples)

theorem getImageColors_palette_witness:
  "palette (getImageColors (Sampled [\<lparr>px_r = 0, px_g = 0, px_b = 0, px_a = 0\<rparr>,
                                      \<lparr>px_r = 0, px_g = 0, px_b = 0, px_a = 0\<rparr>]))
     = [''#e2e4e9'', ''#dbeafe'', ''#f3e8ff'', ''#fae8ff'', ''#e0f2fe'']
   \<and> palette (getImageColors (Sampled [\<lparr>px_r = 80, px_g = 80, px_b = 80, px_a = 255\<rparr>,
                                        \<lparr>px_r = 200, px_g = 100, px_b = 40, px_a = 255\<rparr>,
                                        \<lparr>px_r = 200, px_g = 100, px_b = 40, px_a = 255\<rparr>]))
     = [''#d2c9c3'', ''#c9c3c3'', ''#e2e4e9'', ''#dbeafe'', ''#f3e8ff'']"
proof -
  let ?clear = "[\<lparr>px_r = 0, px_g = 0, px_b = 0, px_a = 0\<rparr>,
                 \<lparr>px_r = 0, px_g = 0, px_b = 0, px_a = 0\<rparr>]"
  let ?two = "[\<lparr>px_r = 80, px_g = 80, px_b = 80, px_a = 255\<rparr>,
               \<lparr>px_r = 200, px_g = 100, px_b = 40, px_a = 255\<rparr>,
               \<lparr>px_r = 200, px_g = 100, px_b = 40, px_a = 255\<rparr>]"
  have a: "pickedColors ?clear = []"
    by (simp add: pickedColors_def sortedColors_def countColors_def count_pixel_def)
  have "countColors ?two = [((64, 64, 64), 1), ((192, 96, 32), 2)]"
    by (simp add: countColors_def count_pixel_def brightness_def bin_key_def)
  then have b: "pickedColors ?two = [''#d2c9c3'', ''#c9c3c3'']"
    using toMorandi_64 toMorandi_192_96_32
    by (simp add: pickedColors_def sortedColors_def isDistinct_def)
  show ?thesis
    using getImageColors_palette [of ?clear] getImageColors_palette [of ?two]
    by (simp add: a b defaultMorandi_def)
qed

text \<open>On a load error and on a missing 2D context the palette has length 0, not 5.\<close>

theorem getImageColors_failure_counterexample:
  "palette (getImageColors LoadError) = []
   \<and> palette (getImageColors NoContext) = []
   \<and> length (palette (getImageColors LoadError)) \<noteq> 5
   \<and> length (palette (getImageColors NoContext)) \<noteq> 5"
  by (simp add: getImageColors_def)

section \<open>Properties of the seeded shuffle\<close>

lemma random_range:
  "0 \<le> fst (random currentSeed) \<and> fst (random currentSeed) < 1
   \<and> snd (random currentSeed) = currentSeed + 1"
proof -
  define x where "x = sin (real_of_int currentSeed) * 10000"
  have "0 \<le> x - real_of_int \<lfloor>x\<rfloor>" and "x - real_of_int \<lfloor>x\<rfloor> < 1"
    by linarith+
  then show ?thesis
    unfolding random_def Let_def x_def by simp
qed

lemma randomIndex_range:
  "0 \<le> \<lfloor>fst (random currentSeed) * real (Suc n)\<rfloor>
   \<and> \<lfloor>fst (random currentSeed) * real (Suc n)\<rfloor> < int (Suc n)"
proof -
  define rnd where "rnd = fst (random currentSeed)"
  have r: "0 \<le> rnd" "rnd < 1" using random_range [of currentSeed] by (simp_all add: rnd_def)
  have pos: "0 < real (Suc n)" by simp
  have "0 \<le> rnd * real (Suc n)" using r(1) by simp
  then have lo: "0 \<le> \<lfloor>rnd * real (Suc n)\<rfloor>" by simp
  have "rnd * real (Suc n) < 1 * real (Suc n)"
    using r(2) pos by (rule mult_strict_right_mono)
  then have "rnd * real (Suc n) < real_of_int (int (Suc n))" by simp
  then have hi: "\<lfloor>rnd * real (Suc n)\<rfloor> < int (Suc n)" by (simp only: floor_less_iff)
  from lo hi show ?thesis by (simp add: rnd_def)
qed

lemma fisherYates_permutes:
  "n \<le> length colors \<Longrightarrow>
   \<exists>ys. fisherYates n currentSeed colors = Some ys \<and> length ys = length colors
        \<and> mset ys = mset colors"
proof (induction n arbitrary: currentSeed colors)
  case 0
  show ?case by simp
next
  case (Suc n)
  obtain rnd nextSeed where rs: "random currentSeed = (rnd, nextSeed)"
    by (cases "random currentSeed")
  define ri where "ri = \<lfloor>rnd * real (Suc n)\<rfloor>"
  have "0 \<le> ri \<and> ri < int (Suc n)"
    using randomIndex_range [of currentSeed n] by (simp add: rs ri_def)
  with Suc.prems have ri: "0 \<le> ri" "nat ri < length colors" by linarith+
  from Suc.prems have ci: "n < length colors" by simp
  let ?swapped = "colors[n := colors ! nat ri, nat ri := colors ! n]"
  have "fisherYates (Suc n) currentSeed colors =
      (if 0 \<le> ri \<and> nat ri < length colors \<and> n < length colors
       then fisherYates n nextSeed ?swapped else None)"
    by (simp only: fisherYates.simps rs prod.case Let_def ri_def)
  then have step: "fisherYates (Suc n) currentSeed colors = fisherYates n nextSeed ?swapped"
    using ri ci by (simp only: simp_thms if_True)
  have len: "length ?swapped = length colors" by simp
  have ms: "mset ?swapped = mset colors"
    using ri(2) ci by (rule mset_swap)
  from ci have "n \<le> length ?swapped" by simp
  from Suc.IH [OF this, of nextSeed] len ms step show ?case
    by auto
qed

lemma padColors_steps:
  "colors \<noteq> [] \<Longrightarrow> 5 - length colors = n \<Longrightarrow>
   padColors colors = Some (colors @ replicate n (colors ! 0))"
proof (induction n arbitrary: colors)
  case 0
  then have "\<not> length colors < 5" by simp
  then show ?case by (subst padColors.simps) simp
next
  case (Suc n)
  from Suc.prems have lt: "length colors < 5" by simp
  from Suc.prems(1) have pos: "0 < length colors" by simp
  let ?next = "colors @ [colors ! 0]"
  have "padColors colors = padColors ?next"
    using lt pos by (subst padColors.simps) simp
  also have "\<dots> = Some (?next @ replicate n (?next ! 0))"
    using Suc.prems by (intro Suc.IH) simp_all
  also have "?next ! 0 = colors ! 0"
    using pos by (simp add: nth_append)
  finally show ?case
    by (simp add: replicate_app_Cons_same)
qed

lemma padColors_nonempty:
  "colors \<noteq> [] \<Longrightarrow>
   padColors colors = Some (colors @ replicate (5 - length colors) (colors ! 0))"
  by (rule padColors_steps) simp_all

lemma padColors_empty: "padColors [] = None"
  by (subst padColors.simps) simp

lemma meshBase_nonempty: "meshBase pal \<noteq> []"
  by (auto simp: meshBase_def meshFallback_def)

lemma padColors_meshBase:
  "padColors (meshBase pal) =
     Some (if length pal \<ge> 3 then pal @ replicate (5 - length pal) (pal ! 0) else meshFallback)"
proof (cases "length pal \<ge> 3")
  case True
  then have "pal \<noteq> []" by auto
  with True show ?thesis by (simp add: meshBase_def padColors_nonempty)
next
  case False
  have "padColors meshFallback = Some meshFallback"
    by (subst padColors.simps) (simp add: meshFallback_def)
  with False show ?thesis by (simp add: meshBase_def)
qed

lemma shuffled_permutes:
  "\<exists>colors ys. padColors (meshBase pal) = Some colors \<and> shuffled pal seed = Some ys
      \<and> length ys = length colors \<and> mset ys = mset colors
      \<and> colors = (if length pal \<ge> 3 then pal @ replicate (5 - length pal) (pal ! 0)
                   else meshFallback)"
proof -
  let ?colors = "if length pal \<ge> 3 then pal @ replicate (5 - length pal) (pal ! 0) else meshFallback"
  have p: "padColors (meshBase pal) = Some ?colors" by (rule padColors_meshBase)
  obtain ys where "fisherYates (length ?colors) seed ?colors = Some ys"
    "length ys = length ?colors" "mset ys = mset ?colors"
    using fisherYates_permutes [of "length ?colors" ?colors seed] by blast
  with p show ?thesis
    by (simp add: shuffled_def)
qed

text \<open>
  Claim C10. Every draw of the seeded generator lies in [0, 1) and increments the state
  by one, so every index \<open>floor (random () * currentIndex)\<close>, for a non-zero
  \<open>currentIndex = Suc n\<close>, is at least 0 and below \<open>currentIndex\<close>; no array access of the
  shuffle is out of bounds (the result is not \<open>None\<close>), and the output has the length of
  the padded list.
\<close>

theorem shuffled_in_bounds:
  "0 \<le> fst (random currentSeed) \<and> fst (random currentSeed) < 1
   \<and> snd (random currentSeed) = currentSeed + 1
   \<and> 0 \<le> \<lfloor>fst (random currentSeed) * real (Suc n)\<rfloor>
   \<and> \<lfloor>fst (random currentSeed) * real (Suc n)\<rfloor> < int (Suc n)
   \<and> (\<exists>colors ys. padColors (meshBase pal) = Some colors \<and> shuffled pal seed = Some ys
         \<and> length ys = length colors)"
proof -
  from shuffled_permutes [of pal seed]
  have "\<exists>colors ys. padColors (meshBase pal) = Some colors \<and> shuffled pal seed = Some ys
         \<and> length ys = length colors"
    by blast
  with random_range [of currentSeed] randomIndex_range [of currentSeed n] show ?thesis
    by blast
qed

theorem shuffled_in_bounds_witness:
  "\<exists>ys. shuffled [''#d2c9c3'', ''#c9c3c3'', ''#e2e4e9'', ''#dbeafe'', ''#f3e8ff''] 1 = Some ys
        \<and> length ys = 5"
proof -
  let ?pal = "[''#d2c9c3'', ''#c9c3c3'', ''#e2e4e9'', ''#dbeafe'', ''#f3e8ff'']"
  have "padColors (meshBase ?pal) = Some ?pal"
    by (simp add: padColors_meshBase)
  with shuffled_in_bounds [of 1 4 ?pal 1] show ?thesis
    by auto
qed

text \<open>
  Claim C4, as amended. The shuffle is a function of the palette and the seed alone, so
  two calls with the same palette and seed give the same output. Its output is a
  permutation of the list it shuffles: the palette when that has at least 3 entries,
  padded to 5 entries by repeating its first entry when it is shorter than 5, and the
  fixed 5-entry fallback list when the palette has fewer than 3 entries.
\<close>

theorem shuffled_permutation:
  "(pal' = pal \<and> seed' = seed \<longrightarrow> shuffled pal' seed' = shuffled pal seed)
   \<and> (\<exists>colors ys. padColors (meshBase pal) = Some colors \<and> shuffled pal seed = Some ys
         \<and> mset ys = mset colors
         \<and> colors = (if length pal \<ge> 3 then pal @ replicate (5 - length pal) (pal ! 0)
                      else meshFallback))"
  using shuffled_permutes [of pal seed] by blast

theorem shuffled_permutation_witness:
  "(\<exists>ys. shuffled [''#d2c9c3'', ''#c9c3c3'', ''#e2e4e9''] 7 = Some ys
        \<and> mset ys = mset [''#d2c9c3'', ''#c9c3c3'', ''#e2e4e9'', ''#d2c9c3'', ''#d2c9c3''])
   \<and> (\<exists>ys. shuffled [] 1 = Some ys \<and> mset ys = mset meshFallback)"
proof -
  let ?pal = "[''#d2c9c3'', ''#c9c3c3'', ''#e2e4e9'']"
  have two: "replicate 2 (''#d2c9c3'' :: string) = [''#d2c9c3'', ''#d2c9c3'']"
    by (simp add: numeral_2_eq_2)
  from shuffled_permutation [of ?pal ?pal 7 7] two
  have a: "\<exists>ys. shuffled ?pal 7 = Some ys
      \<and> mset ys = mset [''#d2c9c3'', ''#c9c3c3'', ''#e2e4e9'', ''#d2c9c3'', ''#d2c9c3'']"
    by auto
  from shuffled_permutation [of "[]" "[]" 1 1]
  have b: "\<exists>ys. shuffled [] 1 = Some ys \<and> mset ys = mset meshFallback"
    by auto
  from a b show ?thesis by blast
qed

text \<open>
  A palette of one colour is replaced by the fallback list: the output is a permutation
  of that list, and not of the palette padded by repetition. The empty palette, which the
  application passes while no image is loaded, gives five fallback colours as well.
\<close>

theorem shuffled_short_palette_counterexample:
  "padColors [''#aaaaaa''] = Some [''#aaaaaa'', ''#aaaaaa'', ''#aaaaaa'', ''#aaaaaa'', ''#aaaaaa'']
   \<and> (case shuffled [''#aaaaaa''] 1 of
        None \<Rightarrow> False
      | Some ys \<Rightarrow>
          mset ys = mset meshFallback
          \<and> mset ys \<noteq> mset [''#aaaaaa'', ''#aaaaaa'', ''#aaaaaa'', ''#aaaaaa'', ''#aaaaaa''])
   \<and> (case shuffled [] 1 of
        None \<Rightarrow> False
      | Some ys \<Rightarrow> mset ys = mset meshFallback \<and> ys \<noteq> [])"
proof -
  let ?padded = "[''#aaaaaa'', ''#aaaaaa'', ''#aaaaaa'', ''#aaaaaa'', ''#aaaaaa'']"
  have pad: "padColors [''#aaaaaa''] = Some ?padded"
    using padColors_nonempty [of "[''#aaaaaa'']"] by (simp add: eval_nat_numeral)
  have "''#eef2ff'' \<in> set meshFallback" by (simp add: meshFallback_def)
  then have "''#eef2ff'' \<in># mset meshFallback" by simp
  moreover have "''#eef2ff'' \<notin># mset ?padded" by simp
  ultimately have ne: "mset meshFallback \<noteq> mset ?padded" by metis
  have ne2: "mset ys = mset meshFallback \<Longrightarrow> ys \<noteq> []" for ys :: "string list"
    by (auto simp: meshFallback_def)
  from shuffled_permutes [of "[''#aaaaaa'']" 1] shuffled_permutes [of "[]" 1] pad ne ne2
  show ?thesis by auto
qed

end
